theory Spec2Isabelle
  imports Complex_Main "HOL-Library.Word" "HOL-Library.Multiset"
begin

unbundle bit_operations_syntax

section \<open>Heston Monte Carlo engine (docs/heston.c)\<close>

text \<open>
  Conventions of the embedding.
  \<^item> A C \<open>double\<close> is a \<open>real\<close>: rounding, overflow to infinity and NaN are outside the
    model, with one exception: the division by the simulation count in
    \<open>run_simulation_batch\<close>, whose zero case is written out (type \<open>fp\<close>).
    C's \<open>sqrt\<close> of a negative number and \<open>log(0)\<close> are not finite; HOL's are some real
    number. The recurrence only takes roots of products with a clamped variance, and of
    \<open>1 - rho * rho\<close>, so the model is that of the code for \<open>rho\<close> in \<open>[-1, 1]\<close> and
    \<open>T \<ge> 0\<close>.
  \<^item> \<open>unsigned long\<close> is 32 bits wide (the file is compiled by emscripten to wasm32). The
    generator masks its state to 31 bits after every update, so a wider word gives the
    same states.
  \<^item> \<open>int\<close> counters are mathematical integers; the one increment that can leave the range
    of a 32-bit \<open>int\<close> (\<open>simulation_count++\<close>), the accesses to \<open>all_paths\<close> and the
    \<open>qsort\<close> call are checked, and undefined behaviour is the result \<open>None\<close>.
  \<^item> The number of time steps \<open>N\<close> is a \<open>nat\<close>: with a negative \<open>N\<close> the path simulator
    writes \<open>S[0]\<close> into an allocation of no positive size.
  \<^item> The global variables are passed explicitly: a pair of the \<open>SimulationState\<close> structure
    and the generator's variables (\<open>rand_seed\<close> and the two \<open>static\<close> locals of
    \<open>normal_random\<close>).
\<close>

subsection \<open>Constants\<close>

definition MAX_PERCENTILE_PATHS :: int where
  "MAX_PERCENTILE_PATHS = 1000"

definition PERCENTILE_TRACKING_LIMIT :: int where
  "PERCENTILE_TRACKING_LIMIT = 1000"

definition INT_MAX :: int where
  "INT_MAX = 2147483647"

subsection \<open>Random number generation\<close>

record rng_state =
  rand_seed :: "32 word"
  has_spare :: bool
  spare :: real

text \<open>\<open>simple_random\<close>: one step of the linear congruential generator.\<close>

definition simple_random :: "rng_state \<Rightarrow> real \<times> rng_state" where
  "simple_random g =
     (let s = (rand_seed g * 1103515245 + 12345) AND 0x7fffffff
      in (real (unat s) / 0x7fffffff, g\<lparr>rand_seed := s\<rparr>))"

text \<open>
  \<open>normal_random\<close>: Box-Muller with a cached second value. The flag is set before the
  two uniform draws, as in the source.
\<close>

definition normal_random :: "rng_state \<Rightarrow> real \<times> rng_state" where
  "normal_random g =
     (if has_spare g then (spare g, g\<lparr>has_spare := False\<rparr>)
      else
        (let g0 = g\<lparr>has_spare := True\<rparr>;
             (u, g1) = simple_random g0;
             (v, g2) = simple_random g1;
             mag = sqrt (- 2 * ln u)
         in (mag * sin (2 * pi * v), g2\<lparr>spare := mag * cos (2 * pi * v)\<rparr>)))"

text \<open>
  The sequence of values that successive calls of \<open>normal_random\<close> return from a state:
  \<open>rng_after k g\<close> is the generator after \<open>k\<close> calls, \<open>draw g k\<close> the value of call
  number \<open>k\<close> (counted from 0).
\<close>

fun rng_after :: "nat \<Rightarrow> rng_state \<Rightarrow> rng_state" where
  "rng_after 0 g = g"
| "rng_after (Suc k) g = rng_after k (snd (normal_random g))"

definition draw :: "rng_state \<Rightarrow> nat \<Rightarrow> real" where
  "draw g k = fst (normal_random (rng_after k g))"

subsection \<open>Path simulation\<close>

text \<open>
  The body of the loop of \<open>simulate_single_path\<close> for the index \<open>i\<close>, on the arrays
  \<open>S\<close> and \<open>v\<close> and the generator. The first call of \<open>normal_random\<close> gives \<open>Z_S\<close>, the
  second one is the call inside the expression for \<open>Z_v\<close>.
\<close>

definition single_path_step ::
  "real \<Rightarrow> real \<Rightarrow> real \<Rightarrow> real \<Rightarrow> real \<Rightarrow> real \<Rightarrow> nat \<Rightarrow>
     real list \<times> real list \<times> rng_state \<Rightarrow> real list \<times> real list \<times> rng_state" where
  "single_path_step r theta kappa xi rho dt i = (\<lambda>(S, v, g).
     let (Z_S, g1) = normal_random g;
         (Z_n, g2) = normal_random g1;
         Z_v = rho * Z_S + sqrt (1 - rho * rho) * Z_n;
         v_prev = max (v ! (i - 1)) 0;
         v_i = v ! (i - 1) + kappa * (theta - v_prev) * dt +
               Z_v * xi * sqrt (v_prev * dt) +
               (xi * xi / 4) * ((Z_v * Z_v - 1) * dt);
         S_i = S ! (i - 1) * exp ((r - v ! (i - 1) / 2) * dt + Z_S * sqrt (max (v ! (i - 1)) 0 * dt))
     in (S[i := S_i], v[i := v_i], g2))"

text \<open>
  The arrays \<open>S\<close> and \<open>v\<close> of \<open>simulate_single_path\<close> and the generator after the
  iterations \<open>i = 1, \<dots>, n\<close> of its loop. The two arrays have \<open>N + 1\<close> cells; \<open>malloc\<close>
  leaves them uninitialised (here: zero), and every cell is written before it is read.
\<close>

definition single_path_arrays ::
  "real \<Rightarrow> real \<Rightarrow> real \<Rightarrow> real \<Rightarrow> real \<Rightarrow> real \<Rightarrow> real \<Rightarrow> real \<Rightarrow> nat \<Rightarrow> nat \<Rightarrow> rng_state \<Rightarrow>
     real list \<times> real list \<times> rng_state" where
  "single_path_arrays S0 v0 r theta kappa xi rho T N n g =
     fold (single_path_step r theta kappa xi rho (T / real N)) [1..<Suc n]
       ((replicate (N + 1) 0)[0 := S0], (replicate (N + 1) 0)[0 := v0], g)"

text \<open>\<open>simulate_single_path\<close> runs the loop up to \<open>N\<close>, frees \<open>v\<close> and returns \<open>S\<close>.\<close>

definition simulate_single_path ::
  "real \<Rightarrow> real \<Rightarrow> real \<Rightarrow> real \<Rightarrow> real \<Rightarrow> real \<Rightarrow> real \<Rightarrow> real \<Rightarrow> nat \<Rightarrow> rng_state \<Rightarrow>
     real list \<times> rng_state" where
  "simulate_single_path S0 v0 r theta kappa xi rho T N g =
     (let (S, v, g') = single_path_arrays S0 v0 r theta kappa xi rho T N N g in (S, g'))"

text \<open>The body of the loop of \<open>simulate_final_price\<close>, on the two scalars \<open>S\<close> and \<open>v\<close>.\<close>

definition final_price_step ::
  "real \<Rightarrow> real \<Rightarrow> real \<Rightarrow> real \<Rightarrow> real \<Rightarrow> real \<Rightarrow> nat \<Rightarrow>
     real \<times> real \<times> rng_state \<Rightarrow> real \<times> real \<times> rng_state" where
  "final_price_step r theta kappa xi rho dt i = (\<lambda>(S, v, g).
     let (Z_S, g1) = normal_random g;
         (Z_n, g2) = normal_random g1;
         Z_v = rho * Z_S + sqrt (1 - rho * rho) * Z_n;
         v_prev = v;
         v_clamped = max v 0;
         v' = v + kappa * (theta - v_clamped) * dt +
              Z_v * xi * sqrt (v_clamped * dt) +
              (xi * xi / 4) * ((Z_v * Z_v - 1) * dt);
         S' = S * exp ((r - v_prev / 2) * dt + Z_S * sqrt (max v_prev 0 * dt))
     in (S', v', g2))"

definition final_price_loop ::
  "real \<Rightarrow> real \<Rightarrow> real \<Rightarrow> real \<Rightarrow> real \<Rightarrow> real \<Rightarrow> real \<Rightarrow> real \<Rightarrow> nat \<Rightarrow> nat \<Rightarrow> rng_state \<Rightarrow>
     real \<times> real \<times> rng_state" where
  "final_price_loop S0 v0 r theta kappa xi rho T N n g =
     fold (final_price_step r theta kappa xi rho (T / real N)) [1..<Suc n] (S0, v0, g)"

definition simulate_final_price ::
  "real \<Rightarrow> real \<Rightarrow> real \<Rightarrow> real \<Rightarrow> real \<Rightarrow> real \<Rightarrow> real \<Rightarrow> real \<Rightarrow> nat \<Rightarrow> rng_state \<Rightarrow>
     real \<times> rng_state" where
  "simulate_final_price S0 v0 r theta kappa xi rho T N g =
     (let (S, v, g') = final_price_loop S0 v0 r theta kappa xi rho T N N g in (S, g'))"

subsection \<open>Black-Scholes reference price\<close>

text \<open>The error function of \<open>math.h\<close>, by its power series.\<close>

definition erf :: "real \<Rightarrow> real" where
  "erf x = 2 / sqrt pi * (\<Sum>n. (- 1) ^ n * x ^ (2 * n + 1) / (fact n * real (2 * n + 1)))"

definition norm_cdf :: "real \<Rightarrow> real" where
  "norm_cdf x = 0.5 * (1 + erf (x / sqrt 2))"

definition black_scholes_call :: "real \<Rightarrow> real \<Rightarrow> real \<Rightarrow> real \<Rightarrow> real \<Rightarrow> real" where
  "black_scholes_call S0 K r T sigma =
     (let d1 = (ln (S0 / K) + (r + 0.5 * sigma * sigma) * T) / (sigma * sqrt T);
          d2 = d1 - sigma * sqrt T
      in S0 * norm_cdf d1 - K * exp (- r * T) * norm_cdf d2)"

subsection \<open>Simulation state\<close>

text \<open>
  A \<open>PricePath\<close> holds a pointer to an array of prices (\<open>None\<close> is the null pointer) and
  the final price. The arrays are never written after they are stored, so a pointer is
  modelled by the array it points to.
\<close>

record PricePath =
  path :: "real list option"
  final_price :: real

text \<open>
  The result of the one division that can have a zero divisor. IEEE 754 division of a
  \<open>double\<close> by zero raises no trap: it gives NaN for a zero dividend and an infinity
  otherwise.
\<close>

datatype fp = Finite real | PlusInfinity | MinusInfinity | NaN

definition fp_div_int :: "real \<Rightarrow> int \<Rightarrow> fp" where
  "fp_div_int x n =
     (if n = 0 then (if x = 0 then NaN else if 0 < x then PlusInfinity else MinusInfinity)
      else Finite (x / real_of_int n))"

definition fp_times :: "real \<Rightarrow> fp \<Rightarrow> fp" where
  "fp_times c y =
     (case y of
        Finite x \<Rightarrow> Finite (c * x)
      | PlusInfinity \<Rightarrow> (if 0 < c then PlusInfinity else if c < 0 then MinusInfinity else NaN)
      | MinusInfinity \<Rightarrow> (if 0 < c then MinusInfinity else if c < 0 then PlusInfinity else NaN)
      | NaN \<Rightarrow> NaN)"

text \<open>
  The structure \<open>SimulationState\<close>. The parameter fields carry the prefix \<open>sim_\<close>
  (\<open>sim_S0 s\<close> is \<open>sim_state.S0\<close>). \<open>all_paths\<close> is the allocated array of
  \<open>MAX_PERCENTILE_PATHS\<close> cells, and the empty list before the first allocation.
\<close>

record SimulationState =
  sim_S0 :: real
  sim_v0 :: real
  sim_r :: real
  sim_theta :: real
  sim_kappa :: real
  sim_xi :: real
  sim_rho :: real
  sim_T :: real
  sim_K :: real
  sim_N :: nat
  simulation_count :: int
  tracking_phase :: bool
  all_paths :: "PricePath list"
  paths_stored :: int
  min_idx :: int
  p25_idx :: int
  p50_idx :: int
  p75_idx :: int
  max_idx :: int
  total_payoffs :: real
  current_option_price :: fp
  black_scholes_price :: real

text \<open>The globals at program start: \<open>sim_state = {0}\<close> and zeroed static variables.\<close>

definition sim_state_zero :: "SimulationState \<times> rng_state" where
  "sim_state_zero =
     (\<lparr>sim_S0 = 0, sim_v0 = 0, sim_r = 0, sim_theta = 0, sim_kappa = 0, sim_xi = 0,
       sim_rho = 0, sim_T = 0, sim_K = 0, sim_N = 0, simulation_count = 0,
       tracking_phase = False, all_paths = [], paths_stored = 0, min_idx = 0, p25_idx = 0,
       p50_idx = 0, p75_idx = 0, max_idx = 0, total_payoffs = 0,
       current_option_price = Finite 0, black_scholes_price = 0\<rparr>,
      \<lparr>rand_seed = 0, has_spare = False, spare = 0\<rparr>)"

subsection \<open>Sorting the stored paths\<close>

definition compare_paths :: "PricePath \<Rightarrow> PricePath \<Rightarrow> int" where
  "compare_paths path_a path_b =
     (if final_price path_a < final_price path_b then - 1
      else if final_price path_a > final_price path_b then 1
      else 0)"

text \<open>
  \<open>qsort\<close> belongs to the C library. The driver takes it as a parameter: the function
  that maps the elements of the array to the elements after the call
  \<open>qsort(array, n, sizeof(PricePath), compare_paths)\<close>. What the C standard promises of it
  is \<open>qsort_contract\<close>: the result is a rearrangement of the array in which no element
  compares greater than a later one. The order of elements that compare equal is open.
\<close>

definition qsort_contract :: "(PricePath list \<Rightarrow> PricePath list) \<Rightarrow> bool" where
  "qsort_contract q \<longleftrightarrow>
     (\<forall>xs. mset (q xs) = mset xs \<and> sorted_wrt (\<lambda>a b. compare_paths a b \<le> 0) (q xs))"

text \<open>One function with this contract: insertion sort with \<open>compare_paths\<close>.\<close>

fun insert_path :: "PricePath \<Rightarrow> PricePath list \<Rightarrow> PricePath list" where
  "insert_path x [] = [x]"
| "insert_path x (y # ys) =
     (if compare_paths x y \<le> 0 then x # y # ys else y # insert_path x ys)"

definition insertion_qsort :: "PricePath list \<Rightarrow> PricePath list" where
  "insertion_qsort xs = foldr insert_path xs []"

subsection \<open>The driver\<close>

text \<open>C's integer division truncates towards zero.\<close>

definition c_div :: "int \<Rightarrow> int \<Rightarrow> int" where
  "c_div a b = sgn a * sgn b * (\<bar>a\<bar> div \<bar>b\<bar>)"

text \<open>
  \<open>initialize_simulation\<close>. The last argument is the value of
  \<open>(unsigned long)time(NULL)\<close>. Freeing the old paths has no effect in the model. The
  percentile indices and the two static variables of \<open>normal_random\<close> are not assigned.
\<close>

definition initialize_simulation ::
  "real \<Rightarrow> real \<Rightarrow> real \<Rightarrow> real \<Rightarrow> real \<Rightarrow> real \<Rightarrow> real \<Rightarrow> real \<Rightarrow> real \<Rightarrow> nat \<Rightarrow> 32 word \<Rightarrow>
     SimulationState \<times> rng_state \<Rightarrow> SimulationState \<times> rng_state" where
  "initialize_simulation S0 v0 r theta kappa xi rho T K N now = (\<lambda>(s, g).
     (s\<lparr>sim_S0 := S0, sim_v0 := v0, sim_r := r, sim_theta := theta, sim_kappa := kappa,
        sim_xi := xi, sim_rho := rho, sim_T := T, sim_K := K, sim_N := N,
        simulation_count := 0, tracking_phase := True, paths_stored := 0,
        total_payoffs := 0, current_option_price := Finite 0,
        all_paths := replicate (nat MAX_PERCENTILE_PATHS) \<lparr>path = None, final_price = 0\<rparr>,
        black_scholes_price := black_scholes_call S0 K r T (sqrt v0)\<rparr>,
      g\<lparr>rand_seed := now\<rparr>))"

text \<open>
  One iteration of the loop of \<open>run_simulation_batch\<close>. The result is \<open>None\<close> where the
  C code has undefined behaviour: a write to \<open>all_paths[paths_stored]\<close> outside the
  array, a \<open>qsort\<close> over more cells than the array has, or the overflow of
  \<open>simulation_count++\<close>. The reads \<open>path[sim_state.N]\<close> are inside the \<open>N + 1\<close> cells
  that \<open>simulate_single_path\<close> returns.
\<close>

definition batch_iteration ::
  "(PricePath list \<Rightarrow> PricePath list) \<Rightarrow> SimulationState \<times> rng_state \<Rightarrow>
     (SimulationState \<times> rng_state) option" where
  "batch_iteration qsort_paths = (\<lambda>(s, g).
     let branch =
       (if tracking_phase s \<and> simulation_count s < PERCENTILE_TRACKING_LIMIT then
          (let (p, g') = simulate_single_path (sim_S0 s) (sim_v0 s) (sim_r s) (sim_theta s)
                           (sim_kappa s) (sim_xi s) (sim_rho s) (sim_T s) (sim_N s) g;
               stored =
                 (if paths_stored s < MAX_PERCENTILE_PATHS then
                    (if 0 \<le> paths_stored s \<and> paths_stored s < int (length (all_paths s)) then
                       Some (s\<lparr>all_paths := (all_paths s)[nat (paths_stored s) :=
                                   \<lparr>path = Some p, final_price = p ! sim_N s\<rparr>],
                               paths_stored := paths_stored s + 1\<rparr>)
                     else None)
                  else Some s)
           in case stored of
                None \<Rightarrow> None
              | Some s1 \<Rightarrow>
                  (let payoff = max (p ! sim_N s1 - sim_K s1) 0;
                       s2 = s1\<lparr>total_payoffs := total_payoffs s1 + payoff\<rparr>
                   in if simulation_count s2 \<ge> PERCENTILE_TRACKING_LIMIT - 1 then
                        (if 0 \<le> paths_stored s2 \<and> paths_stored s2 \<le> int (length (all_paths s2)) then
                           Some (s2\<lparr>tracking_phase := False,
                                    all_paths :=
                                      qsort_paths (take (nat (paths_stored s2)) (all_paths s2)) @
                                      drop (nat (paths_stored s2)) (all_paths s2),
                                    min_idx := 0,
                                    p25_idx := c_div (paths_stored s2) 4,
                                    p50_idx := c_div (paths_stored s2) 2,
                                    p75_idx := c_div (3 * paths_stored s2) 4,
                                    max_idx := paths_stored s2 - 1\<rparr>, g')
                         else None)
                      else Some (s2, g')))
        else
          (let (fin, g') = simulate_final_price (sim_S0 s) (sim_v0 s) (sim_r s) (sim_theta s)
                             (sim_kappa s) (sim_xi s) (sim_rho s) (sim_T s) (sim_N s) g;
               payoff = max (fin - sim_K s) 0
           in Some (s\<lparr>total_payoffs := total_payoffs s + payoff\<rparr>, g')))
     in case branch of
          None \<Rightarrow> None
        | Some (s3, g3) \<Rightarrow>
            if simulation_count s3 < INT_MAX
            then Some (s3\<lparr>simulation_count := simulation_count s3 + 1\<rparr>, g3)
            else None)"

text \<open>The loop \<open>for (i = 0; i < batch_size; i++)\<close>, by the number of iterations left.\<close>

fun batch_loop ::
  "(PricePath list \<Rightarrow> PricePath list) \<Rightarrow> nat \<Rightarrow> SimulationState \<times> rng_state \<Rightarrow>
     (SimulationState \<times> rng_state) option" where
  "batch_loop qsort_paths 0 st = Some st"
| "batch_loop qsort_paths (Suc n) st =
     (case batch_iteration qsort_paths st of
        None \<Rightarrow> None
      | Some st' \<Rightarrow> batch_loop qsort_paths n st')"

text \<open>
  \<open>run_simulation_batch\<close>: \<open>batch_size\<close> iterations (none if it is not positive), then
  the option price from the two totals, with no test of the count.
\<close>

definition run_simulation_batch ::
  "(PricePath list \<Rightarrow> PricePath list) \<Rightarrow> int \<Rightarrow> SimulationState \<times> rng_state \<Rightarrow>
     (SimulationState \<times> rng_state) option" where
  "run_simulation_batch qsort_paths batch_size st =
     (case batch_loop qsort_paths (nat batch_size) st of
        None \<Rightarrow> None
      | Some (s, g) \<Rightarrow>
          Some (s\<lparr>current_option_price :=
                    fp_times (exp (- sim_r s * sim_T s))
                      (fp_div_int (total_payoffs s) (simulation_count s))\<rparr>, g))"

subsection \<open>Accessors\<close>

definition get_simulation_count :: "SimulationState \<Rightarrow> int" where
  "get_simulation_count s = simulation_count s"

definition get_option_price :: "SimulationState \<Rightarrow> fp" where
  "get_option_price s = current_option_price s"

definition get_black_scholes_price :: "SimulationState \<Rightarrow> real" where
  "get_black_scholes_price s = black_scholes_price s"

definition get_time_steps :: "SimulationState \<Rightarrow> nat" where
  "get_time_steps s = sim_N s"

definition is_tracking_phase :: "SimulationState \<Rightarrow> bool" where
  "is_tracking_phase s = tracking_phase s"

text \<open>
  \<open>get_percentile_path\<close>. \<open>percentile_index\<close> is its \<open>switch\<close>: the index for a
  recognised percentile, \<open>None\<close> for the \<open>default\<close> case. The result is the null pointer,
  the array that the pointer in the cell points to, or \<open>InvalidRead\<close> for an index
  outside the allocated array.
\<close>

datatype path_ptr = NULL | Trajectory "real list" | InvalidRead

definition percentile_index :: "int \<Rightarrow> SimulationState \<Rightarrow> int option" where
  "percentile_index percentile s =
     (if percentile = 0 then Some (min_idx s)
      else if percentile = 25 then Some (p25_idx s)
      else if percentile = 50 then Some (p50_idx s)
      else if percentile = 75 then Some (p75_idx s)
      else if percentile = 100 then Some (max_idx s)
      else None)"

definition get_percentile_path :: "int \<Rightarrow> SimulationState \<Rightarrow> path_ptr" where
  "get_percentile_path percentile s =
     (if \<not> tracking_phase s \<and> paths_stored s > 0 then
        (case percentile_index percentile s of
           None \<Rightarrow> NULL
         | Some idx \<Rightarrow>
             if 0 \<le> idx \<and> idx < int (length (all_paths s)) then
               (case path (all_paths s ! nat idx) of
                  None \<Rightarrow> NULL
                | Some t \<Rightarrow> Trajectory t)
             else InvalidRead)
      else NULL)"

subsection \<open>Sequences of calls from the host\<close>

datatype host_call =
  Initialize real real real real real real real real real nat "32 word"
| RunBatch int

fun host_step ::
  "(PricePath list \<Rightarrow> PricePath list) \<Rightarrow> host_call \<Rightarrow> SimulationState \<times> rng_state \<Rightarrow>
     (SimulationState \<times> rng_state) option" where
  "host_step q (Initialize S0 v0 r theta kappa xi rho T K N now) st =
     Some (initialize_simulation S0 v0 r theta kappa xi rho T K N now st)"
| "host_step q (RunBatch batch_size) st = run_simulation_batch q batch_size st"

fun run_calls ::
  "(PricePath list \<Rightarrow> PricePath list) \<Rightarrow> host_call list \<Rightarrow> SimulationState \<times> rng_state \<Rightarrow>
     (SimulationState \<times> rng_state) option" where
  "run_calls q [] st = Some st"
| "run_calls q (c # cs) st =
     (case host_step q c st of
        None \<Rightarrow> None
      | Some st' \<Rightarrow> run_calls q cs st')"

subsection \<open>Invariants of the driver\<close>

text \<open>
  \<open>run_inv\<close> holds at program start and is kept by every call: the stored paths fill
  a prefix of the allocated array, each of them is a full trajectory of \<open>N + 1\<close> prices
  with its final price cached, and once the tracking phase is over (with at least one
  stored path) the prefix is sorted by final price and the five indices are those computed
  from the number of stored paths.
\<close>

definition run_inv :: "SimulationState \<Rightarrow> bool" where
  "run_inv s \<longleftrightarrow>
     0 \<le> paths_stored s \<and> paths_stored s \<le> int (length (all_paths s)) \<and>
     (tracking_phase s \<longrightarrow> int (length (all_paths s)) = MAX_PERCENTILE_PATHS) \<and>
     (\<forall>x \<in> set (take (nat (paths_stored s)) (all_paths s)).
        \<exists>t. path x = Some t \<and> length t = sim_N s + 1 \<and> final_price x = t ! sim_N s) \<and>
     (\<not> tracking_phase s \<and> 0 < paths_stored s \<longrightarrow>
        min_idx s = 0 \<and> p25_idx s = paths_stored s div 4 \<and> p50_idx s = paths_stored s div 2 \<and>
        p75_idx s = 3 * paths_stored s div 4 \<and> max_idx s = paths_stored s - 1 \<and>
        sorted_wrt (\<lambda>a b. final_price a \<le> final_price b)
          (take (nat (paths_stored s)) (all_paths s)))"

text \<open>The phase flag agrees with the count.\<close>

definition phase_inv :: "SimulationState \<Rightarrow> bool" where
  "phase_inv s \<longleftrightarrow> (tracking_phase s \<longleftrightarrow> simulation_count s < PERCENTILE_TRACKING_LIMIT)"

text \<open>
  Within a run (from \<open>initialize_simulation\<close> on) the number of stored paths is the
  count, capped at the capacity.
\<close>

definition stored_inv :: "SimulationState \<Rightarrow> bool" where
  "stored_inv s \<longleftrightarrow>
     phase_inv s \<and> 0 \<le> simulation_count s \<and>
     paths_stored s = min (simulation_count s) MAX_PERCENTILE_PATHS"

subsection \<open>Example inputs\<close>

text \<open>
  Generator states with no spare pending. From the seed state \<open>230538014\<close> the next
  state is \<open>2^31 - 1\<close>, so the first uniform value is \<open>1\<close>; from \<open>204577074\<close> the next
  two states are \<open>2088216195\<close> and \<open>0\<close>.
\<close>

abbreviation rng_230538014 :: rng_state where
  "rng_230538014 \<equiv> \<lparr>rand_seed = 230538014, has_spare = False, spare = 0\<rparr>"


abbreviation rng_42 :: rng_state where
  "rng_42 \<equiv> \<lparr>rand_seed = 42, has_spare = False, spare = 0\<rparr>"

text \<open>
  The arrays \<open>S\<close> and \<open>v\<close> of \<open>simulate_single_path\<close> for \<open>S0 = 1\<close>, \<open>v0 = 0\<close>,
  \<open>r = theta = kappa = rho = 0\<close>, \<open>xi = 2\<close>, \<open>T = 2\<close>, \<open>N = 2\<close> from the first of these
  states.
\<close>

abbreviation example_arrays :: "real list \<times> real list \<times> rng_state" where
  "example_arrays \<equiv> single_path_arrays 1 0 0 0 0 2 0 2 2 2 rng_230538014"



section \<open>Properties\<close>

subsection \<open>The uniform generator\<close>

lemma unat_and_mask31: "unat ((x :: 32 word) AND 0x7fffffff) = unat x mod 2 ^ 31"
proof -
  have m: "(0x7fffffff :: 32 word) = mask 31"
    by (simp add: mask_eq_exp_minus_1)
  have "unat (x AND mask 31) = unat (take_bit 31 x)"
    by (simp only: take_bit_eq_mask)
  also have "\<dots> = take_bit 31 (unat x)"
    by (rule unsigned_take_bit_eq)
  also have "\<dots> = unat x mod 2 ^ 31"
    by (rule take_bit_eq_mod)
  finally show ?thesis unfolding m .
qed

lemma unat_lcg_update:
  "unat ((w :: 32 word) * 1103515245 + 12345) = (unat w * 1103515245 + 12345) mod 2 ^ 32"
  by (simp add: unat_word_ariths mod_simps)

lemma simple_random_seed:
  "unat (rand_seed (snd (simple_random g))) =
     (unat (rand_seed g) * 1103515245 + 12345) mod 2 ^ 31"
proof -
  have "unat ((rand_seed g * 1103515245 + 12345) AND 0x7fffffff) =
          ((unat (rand_seed g) * 1103515245 + 12345) mod 2 ^ 32) mod 2 ^ 31"
    by (simp only: unat_and_mask31 unat_lcg_update)
  also have "\<dots> = (unat (rand_seed g) * 1103515245 + 12345) mod 2 ^ 31"
    by (rule mod_mod_cancel) simp
  finally show ?thesis
    by (simp add: simple_random_def Let_def)
qed

lemma simple_random_value:
  "fst (simple_random g) = real (unat (rand_seed (snd (simple_random g)))) / (2 ^ 31 - 1)"
  by (simp add: simple_random_def Let_def)

lemma quotient_in_unit_interval:
  "n \<le> 2 ^ 31 - 1 \<Longrightarrow>
     0 \<le> real n / (2 ^ 31 - 1) \<and> real n / (2 ^ 31 - 1) \<le> 1
     \<and> (real n / (2 ^ 31 - 1) = 1 \<longleftrightarrow> n = 2 ^ 31 - 1)"
  by (simp add: divide_eq_eq)

text \<open>
  C5 (as amended). For every seed state, \<open>simple_random\<close> sets the state to
  \<open>(seed * 1103515245 + 12345) mod 2^31\<close> and returns the new state divided by
  \<open>2^31 - 1\<close>; the returned value lies in the closed interval \<open>[0, 1]\<close>, and it is \<open>1\<close>
  exactly when the new state is \<open>2^31 - 1\<close>.
\<close>

theorem simple_random_closed_unit_interval:
  "unat (rand_seed (snd (simple_random g))) =
     (unat (rand_seed g) * 1103515245 + 12345) mod 2 ^ 31
   \<and> fst (simple_random g) = real (unat (rand_seed (snd (simple_random g)))) / (2 ^ 31 - 1)
   \<and> 0 \<le> fst (simple_random g) \<and> fst (simple_random g) \<le> 1
   \<and> (fst (simple_random g) = 1 \<longleftrightarrow> unat (rand_seed (snd (simple_random g))) = 2 ^ 31 - 1)"
proof -
  let ?s = "unat (rand_seed (snd (simple_random g)))"
  have s: "?s = (unat (rand_seed g) * 1103515245 + 12345) mod 2 ^ 31"
    by (rule simple_random_seed)
  have "?s < 2 ^ 31"
    unfolding s by simp
  then have le: "?s \<le> 2 ^ 31 - 1"
    by simp
  show ?thesis
    using s quotient_in_unit_interval [OF le]
    unfolding simple_random_value [of g] by blast
qed

text \<open>
  C5 (as stated) fails: from the seed state \<open>230538014\<close> the next state is \<open>2^31 - 1\<close>
  and the value returned is exactly \<open>1\<close>, which is not in \<open>[0, 1)\<close>.
\<close>

theorem simple_random_returns_one:
  "unat (230538014 :: 32 word) < 2 ^ 31
   \<and> unat (rand_seed (snd (simple_random rng_230538014)))
       = 2 ^ 31 - 1
   \<and> fst (simple_random rng_230538014) = 1
   \<and> \<not> fst (simple_random rng_230538014) < 1"
  by (simp add: simple_random_def Let_def)

subsection \<open>The path simulators\<close>

lemma rng_after_Suc_back: "rng_after (Suc k) g = snd (normal_random (rng_after k g))"
  by (induction k arbitrary: g) simp_all

lemma rng_after_add2: "rng_after (2 * Suc n) g = snd (normal_random (snd (normal_random (rng_after (2 * n) g))))"
  by (simp add: rng_after_Suc_back del: rng_after.simps)

lemma single_path_arrays_0:
  "single_path_arrays S0 v0 r theta kappa xi rho T N 0 g =
     ((replicate (N + 1) 0)[0 := S0], (replicate (N + 1) 0)[0 := v0], g)"
  by (simp add: single_path_arrays_def)

lemma single_path_arrays_Suc:
  "single_path_arrays S0 v0 r theta kappa xi rho T N (Suc n) g =
     single_path_step r theta kappa xi rho (T / real N) (Suc n)
       (single_path_arrays S0 v0 r theta kappa xi rho T N n g)"
  by (simp add: single_path_arrays_def)

lemma final_price_loop_0:
  "final_price_loop S0 v0 r theta kappa xi rho T N 0 g = (S0, v0, g)"
  by (simp add: final_price_loop_def)

lemma final_price_loop_Suc:
  "final_price_loop S0 v0 r theta kappa xi rho T N (Suc n) g =
     final_price_step r theta kappa xi rho (T / real N) (Suc n)
       (final_price_loop S0 v0 r theta kappa xi rho T N n g)"
  by (simp add: final_price_loop_def)

lemma final_price_loop_rng:
  "snd (snd (final_price_loop S0 v0 r theta kappa xi rho T N n g)) = rng_after (2 * n) g"
proof (induction n)
  case 0
  show ?case by (simp add: final_price_loop_0)
next
  case (Suc n)
  show ?case
    unfolding final_price_loop_Suc rng_after_add2 Suc [symmetric]
    by (simp add: final_price_step_def Let_def split_beta)
qed

lemma single_path_arrays_sim:
  "n \<le> N \<Longrightarrow>
     (case single_path_arrays S0 v0 r theta kappa xi rho T N n g of (S, v, g') \<Rightarrow>
        length S = N + 1 \<and> length v = N + 1 \<and>
        final_price_loop S0 v0 r theta kappa xi rho T N n g = (S ! n, v ! n, g'))"
proof (induction n)
  case 0
  show ?case by (simp add: single_path_arrays_0 final_price_loop_0)
next
  case (Suc n)
  obtain S v g' where a: "single_path_arrays S0 v0 r theta kappa xi rho T N n g = (S, v, g')"
    by (cases "single_path_arrays S0 v0 r theta kappa xi rho T N n g") auto
  with Suc have l: "length S = N + 1" "length v = N + 1"
    and f: "final_price_loop S0 v0 r theta kappa xi rho T N n g = (S ! n, v ! n, g')"
    by simp_all
  show ?case
    unfolding single_path_arrays_Suc final_price_loop_Suc a f
    using l Suc.prems
    by (simp add: single_path_step_def final_price_step_def Let_def split_beta)
qed

lemma simulate_final_price_nth:
  "fst (simulate_final_price S0 v0 r theta kappa xi rho T N g) =
     fst (simulate_single_path S0 v0 r theta kappa xi rho T N g) ! N"
  using single_path_arrays_sim [of N N S0 v0 r theta kappa xi rho T g]
  by (simp add: simulate_final_price_def simulate_single_path_def split_beta)

text \<open>
  C7. \<open>simulate_final_price\<close> returns the last element (index \<open>N\<close>) of the array of
  \<open>N + 1\<close> prices that \<open>simulate_single_path\<close> returns from the same parameters and the
  same generator state, that is from the same normal draws; both leave the generator in
  the same state.
\<close>

theorem final_price_is_last_of_path:
  "fst (simulate_final_price S0 v0 r theta kappa xi rho T N g) =
     fst (simulate_single_path S0 v0 r theta kappa xi rho T N g) ! N
   \<and> length (fst (simulate_single_path S0 v0 r theta kappa xi rho T N g)) = N + 1
   \<and> snd (simulate_final_price S0 v0 r theta kappa xi rho T N g) =
     snd (simulate_single_path S0 v0 r theta kappa xi rho T N g)"
  using single_path_arrays_sim [of N N S0 v0 r theta kappa xi rho T g]
  by (simp add: simulate_final_price_def simulate_single_path_def split_beta)

lemma single_path_arrays_rng:
  "n \<le> N \<Longrightarrow>
     snd (snd (single_path_arrays S0 v0 r theta kappa xi rho T N n g)) = rng_after (2 * n) g"
  using single_path_arrays_sim [of n N S0 v0 r theta kappa xi rho T g]
    final_price_loop_rng [of S0 v0 r theta kappa xi rho T N n g]
  by (simp add: split_beta)

lemma draw_even: "draw g (2 * Suc n - 2) = fst (normal_random (rng_after (2 * n) g))"
  by (simp add: draw_def)

lemma draw_odd:
  "draw g (2 * Suc n - 1) = fst (normal_random (snd (normal_random (rng_after (2 * n) g))))"
proof -
  have "2 * Suc n - 1 = Suc (2 * n)" by simp
  then show ?thesis
    by (simp only: draw_def rng_after_Suc_back)
qed

lemma single_path_arrays_recurrence:
  "n \<le> N \<Longrightarrow> 1 \<le> i \<Longrightarrow> i \<le> n \<Longrightarrow>
     (case single_path_arrays S0 v0 r theta kappa xi rho T N n g of (S, v, g') \<Rightarrow>
        (let dt = T / real N;
             Z_S = draw g (2 * i - 2);
             Z_v = rho * Z_S + sqrt (1 - rho * rho) * draw g (2 * i - 1);
             v_prev = v ! (i - 1)
         in v ! i = v_prev + kappa * (theta - max v_prev 0) * dt +
                    Z_v * xi * sqrt (max v_prev 0 * dt) +
                    (xi * xi / 4) * ((Z_v * Z_v - 1) * dt)
          \<and> S ! i = S ! (i - 1) * exp ((r - v_prev / 2) * dt + Z_S * sqrt (max v_prev 0 * dt))))"
proof (induction n)
  case 0
  then show ?case by simp
next
  case (Suc n)
  obtain S v g' where a: "single_path_arrays S0 v0 r theta kappa xi rho T N n g = (S, v, g')"
    by (cases "single_path_arrays S0 v0 r theta kappa xi rho T N n g") auto
  have l: "length S = N + 1" "length v = N + 1"
    using single_path_arrays_sim [of n N S0 v0 r theta kappa xi rho T g] Suc.prems a by simp_all
  have g': "g' = rng_after (2 * n) g"
    using single_path_arrays_rng [of n N S0 v0 r theta kappa xi rho T g] Suc.prems a by simp
  show ?case
  proof (cases "i = Suc n")
    case True
    show ?thesis
      unfolding single_path_arrays_Suc a True draw_even draw_odd
      using l Suc.prems
      by (simp add: single_path_step_def Let_def split_beta g')
  next
    case False
    with Suc.prems have i: "i \<le> n" "i \<noteq> Suc n" "i - 1 \<noteq> Suc n"
      by simp_all
    have ih: "(let dt = T / real N;
             Z_S = draw g (2 * i - 2);
             Z_v = rho * Z_S + sqrt (1 - rho * rho) * draw g (2 * i - 1);
             v_prev = v ! (i - 1)
         in v ! i = v_prev + kappa * (theta - max v_prev 0) * dt +
                    Z_v * xi * sqrt (max v_prev 0 * dt) +
                    (xi * xi / 4) * ((Z_v * Z_v - 1) * dt)
          \<and> S ! i = S ! (i - 1) * exp ((r - v_prev / 2) * dt + Z_S * sqrt (max v_prev 0 * dt)))"
      using Suc.IH Suc.prems i a by simp
    show ?thesis
      unfolding single_path_arrays_Suc a
      using ih i
      by (simp add: single_path_step_def Let_def split_beta)
  qed
qed

lemma final_price_loop_recurrence:
  "1 \<le> i \<Longrightarrow>
     (case final_price_loop S0 v0 r theta kappa xi rho T N (i - 1) g of (S_prev, v_prev, g1) \<Rightarrow>
      case final_price_loop S0 v0 r theta kappa xi rho T N i g of (S_i, v_i, g2) \<Rightarrow>
        (let dt = T / real N;
             Z_S = draw g (2 * i - 2);
             Z_v = rho * Z_S + sqrt (1 - rho * rho) * draw g (2 * i - 1)
         in v_i = v_prev + kappa * (theta - max v_prev 0) * dt +
                    Z_v * xi * sqrt (max v_prev 0 * dt) +
                    (xi * xi / 4) * ((Z_v * Z_v - 1) * dt)
          \<and> S_i = S_prev * exp ((r - v_prev / 2) * dt + Z_S * sqrt (max v_prev 0 * dt))))"
proof -
  assume "1 \<le> i"
  then obtain n where i: "i = Suc n"
    by (cases i) auto
  have g: "snd (snd (final_price_loop S0 v0 r theta kappa xi rho T N n g)) = rng_after (2 * n) g"
    by (rule final_price_loop_rng)
  show ?thesis
    unfolding i final_price_loop_Suc draw_even draw_odd g [symmetric]
    by (simp add: final_price_step_def Let_def split_beta)
qed



text \<open>
  C1 (as amended). In both simulators, every step \<open>i = 1, \<dots>, N\<close> updates the price from
  the variance of before the step: the drift term takes it as it is stored (unclamped),
  the diffusion term clamps it to zero under the square root:
  \<open>S_i = S_{i-1} * exp((r - v_{i-1} / 2) * dt + Z_S * sqrt(max(v_{i-1}, 0) * dt))\<close>.
  \<open>Z_S\<close> is the first normal draw of the step. The array \<open>S\<close> is the one that
  \<open>simulate_single_path\<close> returns, and the variable \<open>S\<close> after step \<open>N\<close> is what
  \<open>simulate_final_price\<close> returns.
\<close>

theorem price_update_unclamped_drift:
  assumes "1 \<le> i" and "i \<le> N"
  shows
  "(case single_path_arrays S0 v0 r theta kappa xi rho T N N g of (S, v, g') \<Rightarrow>
      (let dt = T / real N;
           Z_S = draw g (2 * i - 2)
       in S ! i = S ! (i - 1) *
            exp ((r - v ! (i - 1) / 2) * dt + Z_S * sqrt (max (v ! (i - 1)) 0 * dt))))
   \<and> (case final_price_loop S0 v0 r theta kappa xi rho T N (i - 1) g of (S_prev, v_prev, g1) \<Rightarrow>
      case final_price_loop S0 v0 r theta kappa xi rho T N i g of (S_i, v_i, g2) \<Rightarrow>
      (let dt = T / real N;
           Z_S = draw g (2 * i - 2)
       in S_i = S_prev * exp ((r - v_prev / 2) * dt + Z_S * sqrt (max v_prev 0 * dt))))
   \<and> fst (simulate_single_path S0 v0 r theta kappa xi rho T N g) =
       fst (single_path_arrays S0 v0 r theta kappa xi rho T N N g)
   \<and> fst (simulate_final_price S0 v0 r theta kappa xi rho T N g) =
       fst (final_price_loop S0 v0 r theta kappa xi rho T N N g)"
  using single_path_arrays_recurrence [where n = N and N = N and i = i and g = g]
    final_price_loop_recurrence [where i = i and N = N and g = g] assms
  by (simp add: split_beta Let_def simulate_single_path_def simulate_final_price_def)

theorem price_update_unclamped_drift_witness:
  "(1::nat) \<le> 1 \<and> (1::nat) \<le> 1 \<and>
   (case single_path_arrays 100 (4/100) (5/100) (4/100) 2 (3/10) (- 7/10) 1 1 1 rng_42 of (S, v, g') \<Rightarrow>
         (let dt = 1 / real (1::nat);
              Z_S = draw rng_42 (2 * 1 - 2)
          in S ! 1 = S ! (1 - 1) *
               exp (((5/100) - v ! (1 - 1) / 2) * dt + Z_S * sqrt (max (v ! (1 - 1)) 0 * dt))))
      \<and> (case final_price_loop 100 (4/100) (5/100) (4/100) 2 (3/10) (- 7/10) 1 1 (1 - 1) rng_42 of (S_prev, v_prev, g1) \<Rightarrow>
         case final_price_loop 100 (4/100) (5/100) (4/100) 2 (3/10) (- 7/10) 1 1 1 rng_42 of (S_i, v_i, g2) \<Rightarrow>
         (let dt = 1 / real (1::nat);
              Z_S = draw rng_42 (2 * 1 - 2)
          in S_i = S_prev * exp (((5/100) - v_prev / 2) * dt + Z_S * sqrt (max v_prev 0 * dt))))
      \<and> fst (simulate_single_path 100 (4/100) (5/100) (4/100) 2 (3/10) (- 7/10) 1 1 rng_42) =
          fst (single_path_arrays 100 (4/100) (5/100) (4/100) 2 (3/10) (- 7/10) 1 1 1 rng_42)
      \<and> fst (simulate_final_price 100 (4/100) (5/100) (4/100) 2 (3/10) (- 7/10) 1 1 rng_42) =
          fst (final_price_loop 100 (4/100) (5/100) (4/100) 2 (3/10) (- 7/10) 1 1 1 rng_42)"
proof -
  have h: "(1::nat) \<le> 1"
    by simp
  note t = price_update_unclamped_drift [OF h h]
  show ?thesis
    by (intro conjI h)
      (rule t [THEN conjunct1], rule t [THEN conjunct2, THEN conjunct1],
       rule t [THEN conjunct2, THEN conjunct2, THEN conjunct1],
       rule t [THEN conjunct2, THEN conjunct2, THEN conjunct2])
qed

text \<open>
  C1 (as stated) fails. With \<open>S0 = 1\<close>, \<open>v0 = 0\<close>, \<open>r = theta = kappa = rho = 0\<close>,
  \<open>xi = 2\<close>, \<open>T = 2\<close>, \<open>N = 2\<close> and the seed state \<open>230538014\<close> the first uniform value is
  \<open>1\<close>, so the first two normal draws are \<open>0\<close> and the first step gives \<open>v_1 = -1\<close> and
  \<open>S_1 = 1\<close>. The second step gives \<open>S_2 = exp(1/2)\<close>; with the variance clamped in the
  drift term it would be \<open>exp(0) = 1\<close>.
\<close>

theorem price_drift_not_clamped:
  "fst (snd example_arrays) ! 1 = - 1
   \<and> fst example_arrays ! 1 = 1
   \<and> fst example_arrays ! 2 = exp (1 / 2)
   \<and> fst (simulate_single_path 1 0 0 0 0 2 0 2 2 rng_230538014) ! 2 = exp (1 / 2)
   \<and> fst (simulate_final_price 1 0 0 0 0 2 0 2 2 rng_230538014) = exp (1 / 2)
   \<and> fst example_arrays ! 1 *
       exp ((0 - max (fst (snd example_arrays) ! 1) 0 / 2) * (2 / real (2::nat)) +
            draw rng_230538014 (2 * 2 - 2) * sqrt (max (fst (snd example_arrays) ! 1) 0 * (2 / real (2::nat)))) = 1
   \<and> fst example_arrays ! 2 \<noteq>
       fst example_arrays ! 1 *
       exp ((0 - max (fst (snd example_arrays) ! 1) 0 / 2) * (2 / real (2::nat)) +
            draw rng_230538014 (2 * 2 - 2) * sqrt (max (fst (snd example_arrays) ! 1) 0 * (2 / real (2::nat))))"
proof -
  have u: "[1..<Suc 2] = [1, 2]"
    by (simp add: upt_rec)
  have a: "fst (snd example_arrays) ! 1 = - 1" "fst example_arrays ! 1 = 1" "fst example_arrays ! 2 = exp (1 / 2)"
    unfolding single_path_arrays_def u
    by (simp_all add: single_path_step_def normal_random_def simple_random_def Let_def split_beta)
  have p: "fst (simulate_single_path 1 0 0 0 0 2 0 2 2 rng_230538014) ! 2 = exp (1 / 2)"
    using a(3) by (simp add: simulate_single_path_def split_beta)
  have f: "fst (simulate_final_price 1 0 0 0 0 2 0 2 2 rng_230538014) = exp (1 / 2)"
    using p by (simp add: simulate_final_price_nth)
  show ?thesis
    using p f unfolding a by simp
qed

subsection \<open>Sorting\<close>

lemma compare_paths_le: "compare_paths a b \<le> 0 \<longleftrightarrow> final_price a \<le> final_price b"
  by (simp add: compare_paths_def)

lemma mset_insert_path: "mset (insert_path x ys) = add_mset x (mset ys)"
  by (induction ys) simp_all

lemma set_insert_path: "set (insert_path x ys) = insert x (set ys)"
  by (induction ys) auto

lemma sorted_insert_path:
  "sorted_wrt (\<lambda>a b. compare_paths a b \<le> 0) ys \<Longrightarrow>
     sorted_wrt (\<lambda>a b. compare_paths a b \<le> 0) (insert_path x ys)"
  by (induction ys) (auto simp: set_insert_path compare_paths_le)

lemma insertion_qsort_contract: "qsort_contract insertion_qsort"
proof -
  have "mset (foldr insert_path xs []) = mset xs
        \<and> sorted_wrt (\<lambda>a b. compare_paths a b \<le> 0) (foldr insert_path xs [])" for xs
    by (induction xs) (simp_all add: mset_insert_path sorted_insert_path)
  then show ?thesis
    by (simp add: qsort_contract_def insertion_qsort_def)
qed

lemma c_div_nonneg: "0 \<le> a \<Longrightarrow> 0 < b \<Longrightarrow> c_div a b = a div b"
  by (cases "a = 0") (simp_all add: c_div_def)

subsection \<open>The driver keeps its invariants\<close>

lemma length_simulate_single_path:
  "length (fst (simulate_single_path S0 v0 r theta kappa xi rho T N g)) = N + 1"
  using single_path_arrays_sim [of N N S0 v0 r theta kappa xi rho T g]
  by (simp add: simulate_single_path_def split_beta)

lemma qsort_contract_length: "qsort_contract q \<Longrightarrow> length (q xs) = length xs"
  by (metis qsort_contract_def size_mset)

lemma qsort_contract_set: "qsort_contract q \<Longrightarrow> set (q xs) = set xs"
  by (metis qsort_contract_def set_mset_mset)

lemma qsort_contract_sorted:
  "qsort_contract q \<Longrightarrow> sorted_wrt (\<lambda>a b. final_price a \<le> final_price b) (q xs)"
  by (simp add: qsort_contract_def flip: compare_paths_le)

lemma run_inv_total_payoffs [simp]: "run_inv (s\<lparr>total_payoffs := x\<rparr>) = run_inv s"
  by (simp add: run_inv_def)

lemma run_inv_simulation_count [simp]: "run_inv (s\<lparr>simulation_count := n\<rparr>) = run_inv s"
  by (simp add: run_inv_def)

lemma run_inv_current_option_price [simp]: "run_inv (s\<lparr>current_option_price := x\<rparr>) = run_inv s"
  by (simp add: run_inv_def)

lemma run_inv_store:
  assumes "run_inv s" and "tracking_phase s" and "paths_stored s < MAX_PERCENTILE_PATHS"
    and "length p = sim_N s + 1"
  shows "run_inv (s\<lparr>all_paths := (all_paths s)[nat (paths_stored s) :=
                      \<lparr>path = Some p, final_price = p ! sim_N s\<rparr>],
                    paths_stored := paths_stored s + 1\<rparr>)"
proof -
  have n: "nat (paths_stored s + 1) = Suc (nat (paths_stored s))"
    "nat (paths_stored s) < length (all_paths s)"
    using assms by (auto simp: run_inv_def)
  have "take (Suc (nat (paths_stored s))) ((all_paths s)[nat (paths_stored s) :=
           \<lparr>path = Some p, final_price = p ! sim_N s\<rparr>]) =
        take (nat (paths_stored s)) (all_paths s) @ [\<lparr>path = Some p, final_price = p ! sim_N s\<rparr>]"
    using n(2) by (simp add: take_Suc_conv_app_nth)
  then show ?thesis
    using assms n by (auto simp: run_inv_def)
qed

lemma run_inv_transition:
  assumes "qsort_contract q" and "run_inv s"
  shows "run_inv (s\<lparr>tracking_phase := False,
                    all_paths := q (take (nat (paths_stored s)) (all_paths s)) @
                                 drop (nat (paths_stored s)) (all_paths s),
                    min_idx := 0,
                    p25_idx := c_div (paths_stored s) 4,
                    p50_idx := c_div (paths_stored s) 2,
                    p75_idx := c_div (3 * paths_stored s) 4,
                    max_idx := paths_stored s - 1\<rparr>)"
proof -
  let ?M = "nat (paths_stored s)"
  have M: "0 \<le> paths_stored s" "?M \<le> length (all_paths s)"
    using assms(2) by (auto simp: run_inv_def)
  have l: "length (q (take ?M (all_paths s))) = ?M"
    using M by (simp add: qsort_contract_length [OF assms(1)])
  have t: "take ?M (q (take ?M (all_paths s)) @ drop ?M (all_paths s)) = q (take ?M (all_paths s))"
    using l by simp
  show ?thesis
    using assms(2) M l
    by (simp add: run_inv_def t c_div_nonneg qsort_contract_set [OF assms(1)]
        qsort_contract_sorted [OF assms(1)])
qed

lemma batch_iteration_inv:
  assumes "qsort_contract q" and "run_inv s" and "batch_iteration q (s, g) = Some (s', g')"
  shows "run_inv s'"
proof (cases "tracking_phase s \<and> simulation_count s < PERCENTILE_TRACKING_LIMIT")
  case False
  with assms(2,3) show ?thesis
    by (auto simp: batch_iteration_def Let_def split_beta split: if_splits)
next
  case True
  obtain p g1 where sp: "simulate_single_path (sim_S0 s) (sim_v0 s) (sim_r s) (sim_theta s)
      (sim_kappa s) (sim_xi s) (sim_rho s) (sim_T s) (sim_N s) g = (p, g1)"
    by (cases "simulate_single_path (sim_S0 s) (sim_v0 s) (sim_r s) (sim_theta s)
      (sim_kappa s) (sim_xi s) (sim_rho s) (sim_T s) (sim_N s) g") auto
  have lp: "length p = sim_N s + 1"
    using length_simulate_single_path [of "sim_S0 s" "sim_v0 s" "sim_r s" "sim_theta s"
      "sim_kappa s" "sim_xi s" "sim_rho s" "sim_T s" "sim_N s" g] sp by simp
  define s1 where "s1 = (if paths_stored s < MAX_PERCENTILE_PATHS
     then s\<lparr>all_paths := (all_paths s)[nat (paths_stored s) :=
                      \<lparr>path = Some p, final_price = p ! sim_N s\<rparr>],
                    paths_stored := paths_stored s + 1\<rparr> else s)"
  have s1: "run_inv s1" "tracking_phase s1"
    using run_inv_store [OF assms(2) _ _ lp] True assms(2) by (auto simp: s1_def)
  have st: "(if paths_stored s < MAX_PERCENTILE_PATHS then
                    (if 0 \<le> paths_stored s \<and> paths_stored s < int (length (all_paths s)) then
                       Some (s\<lparr>all_paths := (all_paths s)[nat (paths_stored s) :=
                                   \<lparr>path = Some p, final_price = p ! sim_N s\<rparr>],
                               paths_stored := paths_stored s + 1\<rparr>)
                     else None)
                  else Some s) = Some s1"
    using assms(2) True by (auto simp: s1_def run_inv_def)
  show ?thesis
    using assms(3) True s1 run_inv_transition [OF assms(1), of "s1\<lparr>total_payoffs := total_payoffs s1 + max (p ! sim_N s1 - sim_K s1) 0\<rparr>"]
    unfolding batch_iteration_def
    by (auto simp: sp st Let_def split: if_splits)
qed

lemma batch_loop_inv:
  "qsort_contract q \<Longrightarrow> run_inv (fst st) \<Longrightarrow> batch_loop q n st = Some st' \<Longrightarrow> run_inv (fst st')"
proof (induction n arbitrary: st)
  case 0
  then show ?case by simp
next
  case (Suc n)
  then obtain st1 where a: "batch_iteration q st = Some st1" and b: "batch_loop q n st1 = Some st'"
    by (auto split: option.splits)
  have "run_inv (fst st1)"
    using batch_iteration_inv [OF Suc.prems(1), of "fst st" "snd st" "fst st1" "snd st1"]
      Suc.prems(2) a by simp
  then show ?case
    using Suc.IH [OF Suc.prems(1) _ b] by simp
qed

lemma run_simulation_batch_inv:
  "qsort_contract q \<Longrightarrow> run_inv (fst st) \<Longrightarrow> run_simulation_batch q b st = Some st' \<Longrightarrow>
     run_inv (fst st')"
  using batch_loop_inv [of q st "nat b"]
  by (auto simp: run_simulation_batch_def split: option.splits)

lemma initialize_simulation_inv:
  "run_inv (fst (initialize_simulation S0 v0 r theta kappa xi rho T K N now st))"
  by (simp add: initialize_simulation_def run_inv_def split_beta MAX_PERCENTILE_PATHS_def)

lemma sim_state_zero_inv: "run_inv (fst sim_state_zero)"
  by (simp add: sim_state_zero_def run_inv_def)

lemma run_calls_inv:
  "qsort_contract q \<Longrightarrow> run_inv (fst st) \<Longrightarrow> run_calls q cs st = Some st' \<Longrightarrow> run_inv (fst st')"
proof (induction cs arbitrary: st)
  case Nil
  then show ?case by simp
next
  case (Cons c cs)
  then obtain st1 where a: "host_step q c st = Some st1" and b: "run_calls q cs st1 = Some st'"
    by (auto split: option.splits)
  have "run_inv (fst st1)"
    using a Cons.prems(1,2)
    by (cases c) (auto simp: initialize_simulation_inv dest: run_simulation_batch_inv)
  then show ?case
    using Cons.IH [OF Cons.prems(1) _ b] by simp
qed

subsection \<open>The cached spare value across the driver\<close>

lemma has_spare_simple_random [simp]: "has_spare (snd (simple_random g)) = has_spare g"
  by (simp add: simple_random_def Let_def)








subsection \<open>The phase flag\<close>

lemma batch_iteration_count:
  "batch_iteration q (s, g) = Some (s', g') \<Longrightarrow> simulation_count s' = simulation_count s + 1"
  by (auto simp: batch_iteration_def Let_def split_beta split: if_splits option.splits)

lemma batch_iteration_phase:
  assumes "batch_iteration q (s, g) = Some (s', g')" and "phase_inv s"
  shows "phase_inv s'"
    and "tracking_phase s \<and> \<not> tracking_phase s' \<longleftrightarrow>
           simulation_count s = PERCENTILE_TRACKING_LIMIT - 1"
  using assms
  by (auto simp: batch_iteration_def phase_inv_def Let_def split_beta PERCENTILE_TRACKING_LIMIT_def
      split: if_splits option.splits)

lemma batch_loop_phase:
  "batch_loop q n st = Some st' \<Longrightarrow> phase_inv (fst st) \<Longrightarrow>
     phase_inv (fst st') \<and> simulation_count (fst st') = simulation_count (fst st) + int n"
proof (induction n arbitrary: st)
  case 0
  then show ?case by simp
next
  case (Suc n)
  then obtain st1 where a: "batch_iteration q st = Some st1" and b: "batch_loop q n st1 = Some st'"
    by (auto split: option.splits)
  have "phase_inv (fst st1)" "simulation_count (fst st1) = simulation_count (fst st) + 1"
    using batch_iteration_phase(1) [of q "fst st" "snd st" "fst st1" "snd st1"]
      batch_iteration_count [of q "fst st" "snd st" "fst st1" "snd st1"] a Suc.prems(2)
    by simp_all
  then show ?case
    using Suc.IH [OF b] by simp
qed

lemma run_simulation_batch_phase:
  assumes "run_simulation_batch q b st = Some st'" and "phase_inv (fst st)"
  shows "phase_inv (fst st')"
    and "simulation_count (fst st') = simulation_count (fst st) + max b 0"
  using assms batch_loop_phase [of q "nat b" st]
  by (auto simp: run_simulation_batch_def phase_inv_def split: option.splits)

lemma initialize_simulation_phase:
  "phase_inv (fst (initialize_simulation S0 v0 r theta kappa xi rho T K N now st))"
  by (simp add: initialize_simulation_def phase_inv_def split_beta PERCENTILE_TRACKING_LIMIT_def)

lemma run_calls_phase:
  "run_calls q cs st = Some st' \<Longrightarrow> phase_inv (fst st) \<Longrightarrow> phase_inv (fst st')"
proof (induction cs arbitrary: st)
  case Nil
  then show ?case by simp
next
  case (Cons c cs)
  then obtain st1 where a: "host_step q c st = Some st1" and b: "run_calls q cs st1 = Some st'"
    by (auto split: option.splits)
  have "phase_inv (fst st1)"
    using a Cons.prems(2)
    by (cases c) (auto simp: initialize_simulation_phase dest: run_simulation_batch_phase(1))
  then show ?case
    using Cons.IH [OF b] by simp
qed

subsection \<open>Runs: the stored paths and the absence of undefined behaviour\<close>

lemma batch_iteration_stored:
  "batch_iteration q (s, g) = Some (s', g') \<Longrightarrow> stored_inv s \<Longrightarrow> stored_inv s'"
  by (auto simp: batch_iteration_def stored_inv_def phase_inv_def Let_def split_beta
      PERCENTILE_TRACKING_LIMIT_def MAX_PERCENTILE_PATHS_def split: if_splits option.splits)

lemma batch_loop_stored:
  "batch_loop q n st = Some st' \<Longrightarrow> stored_inv (fst st) \<Longrightarrow> stored_inv (fst st')"
proof (induction n arbitrary: st)
  case 0
  then show ?case by simp
next
  case (Suc n)
  then obtain st1 where a: "batch_iteration q st = Some st1" and b: "batch_loop q n st1 = Some st'"
    by (auto split: option.splits)
  have "stored_inv (fst st1)"
    using batch_iteration_stored [of q "fst st" "snd st" "fst st1" "snd st1"] a Suc.prems(2)
    by simp
  then show ?case
    using Suc.IH [OF b] by simp
qed

lemma run_simulation_batch_stored:
  "run_simulation_batch q b st = Some st' \<Longrightarrow> stored_inv (fst st) \<Longrightarrow> stored_inv (fst st')"
  using batch_loop_stored [of q "nat b" st]
  by (auto simp: run_simulation_batch_def stored_inv_def phase_inv_def split: option.splits)

lemma initialize_simulation_stored:
  "stored_inv (fst (initialize_simulation S0 v0 r theta kappa xi rho T K N now st))"
  by (simp add: initialize_simulation_def stored_inv_def phase_inv_def split_beta
      PERCENTILE_TRACKING_LIMIT_def MAX_PERCENTILE_PATHS_def)

lemma batch_iteration_total:
  "run_inv s \<Longrightarrow> simulation_count s < INT_MAX \<Longrightarrow> \<exists>st'. batch_iteration q (s, g) = Some st'"
  by (auto simp: batch_iteration_def run_inv_def Let_def split_beta split: if_splits option.splits)

lemma batch_loop_total:
  "qsort_contract q \<Longrightarrow> run_inv (fst st) \<Longrightarrow> simulation_count (fst st) + int n \<le> INT_MAX \<Longrightarrow>
     \<exists>st'. batch_loop q n st = Some st'"
proof (induction n arbitrary: st)
  case 0
  then show ?case by simp
next
  case (Suc n)
  obtain st1 where a: "batch_iteration q st = Some st1"
    using batch_iteration_total [of "fst st" q "snd st"] Suc.prems(2,3) by auto
  have "run_inv (fst st1)" "simulation_count (fst st1) = simulation_count (fst st) + 1"
    using batch_iteration_inv [OF Suc.prems(1), of "fst st" "snd st" "fst st1" "snd st1"]
      batch_iteration_count [of q "fst st" "snd st" "fst st1" "snd st1"] Suc.prems(2) a
    by simp_all
  then show ?case
    using Suc.IH [OF Suc.prems(1), of st1] Suc.prems(3) a by simp
qed

lemma run_simulation_batch_total:
  "qsort_contract q \<Longrightarrow> run_inv (fst st) \<Longrightarrow> simulation_count (fst st) + max b 0 \<le> INT_MAX \<Longrightarrow>
     \<exists>st'. run_simulation_batch q b st = Some st'"
proof -
  assume a: "qsort_contract q" "run_inv (fst st)" "simulation_count (fst st) + max b 0 \<le> INT_MAX"
  have "int (nat b) = max b 0"
    by simp
  then obtain st1 where "batch_loop q (nat b) st = Some st1"
    using batch_loop_total [OF a(1,2), of "nat b"] a(3) by auto
  then show ?thesis
    by (simp add: run_simulation_batch_def split_beta)
qed

lemma run_step:
  assumes "qsort_contract q" and "run_inv (fst st)" and "stored_inv (fst st)"
    and "simulation_count (fst st) + max b 0 \<le> INT_MAX"
  shows "\<exists>st'. run_simulation_batch q b st = Some st' \<and> run_inv (fst st') \<and> stored_inv (fst st')
           \<and> simulation_count (fst st') = simulation_count (fst st) + max b 0"
proof -
  obtain st' where a: "run_simulation_batch q b st = Some st'"
    using run_simulation_batch_total [OF assms(1,2,4)] by auto
  have "phase_inv (fst st)"
    using assms(3) by (simp add: stored_inv_def)
  then show ?thesis
    using a run_simulation_batch_inv [OF assms(1,2) a] run_simulation_batch_stored [OF a assms(3)]
      run_simulation_batch_phase(2) [OF a] by simp
qed

lemma initialize_simulation_count:
  "simulation_count (fst (initialize_simulation S0 v0 r theta kappa xi rho T K N now st)) = 0"
  by (simp add: initialize_simulation_def split_beta)

lemma host_run_reaches:
  assumes "qsort_contract q" and "max b 0 \<le> INT_MAX"
  shows "\<exists>s g. run_calls q [Initialize S0 v0 r theta kappa xi rho T K N now, RunBatch b] st0 = Some (s, g)
           \<and> run_inv s \<and> stored_inv s \<and> simulation_count s = max b 0"
proof -
  let ?st = "initialize_simulation S0 v0 r theta kappa xi rho T K N now st0"
  have "simulation_count (fst ?st) + max b 0 \<le> INT_MAX"
    using assms(2) by (simp add: initialize_simulation_count)
  moreover have "run_inv (fst ?st)" "stored_inv (fst ?st)"
    by (rule initialize_simulation_inv, rule initialize_simulation_stored)
  ultimately obtain st' where "run_simulation_batch q b ?st = Some st'" "run_inv (fst st')"
      "stored_inv (fst st')" "simulation_count (fst st') = max b 0"
    using run_step [OF assms(1), of ?st b]
    by (auto simp: initialize_simulation_count)
  then show ?thesis
    by (cases st') simp
qed

lemma host_run_reaches_fast:
  assumes "qsort_contract q"
  shows "\<exists>s g. run_calls q [Initialize S0 v0 r theta kappa xi rho T K N now, RunBatch 1000] st0 = Some (s, g)
           \<and> \<not> tracking_phase s \<and> paths_stored s = 1000"
proof -
  have "max (1000::int) 0 \<le> INT_MAX"
    by (simp add: INT_MAX_def)
  from host_run_reaches [OF assms this]
  obtain s g where r: "run_calls q [Initialize S0 v0 r theta kappa xi rho T K N now, RunBatch 1000] st0 = Some (s, g)"
    and i: "stored_inv s" "simulation_count s = max 1000 0"
    by blast
  have "\<not> tracking_phase s" "paths_stored s = 1000"
    using i
    by (simp_all add: stored_inv_def phase_inv_def PERCENTILE_TRACKING_LIMIT_def
        MAX_PERCENTILE_PATHS_def)
  then show ?thesis
    using r by blast
qed

subsection \<open>The phase transition\<close>

text \<open>
  C3. After \<open>initialize_simulation\<close> (from any state) and any sequence of further calls
  that the host makes, \<open>is_tracking_phase\<close> is true exactly when the simulation count is
  below the tracking limit, which is \<open>1000\<close>. A further batch adds \<open>max(batch_size, 0)\<close>
  to the count and keeps the equivalence, so the phase leaves TRACKING in exactly the
  batch in which the count reaches the limit, whatever the batch sizes; a batch never
  brings a run back to TRACKING; and within a batch the one iteration that leaves
  TRACKING is the one that starts at count \<open>999\<close>. Sequences of calls are those that
  complete: the overflow of the \<open>int\<close> count is undefined behaviour.
\<close>

theorem phase_transition_exact:
  assumes "run_calls q cs (initialize_simulation S0 v0 r theta kappa xi rho T K N now st0) = Some (s, g)"
  shows "(is_tracking_phase s \<longleftrightarrow> get_simulation_count s < PERCENTILE_TRACKING_LIMIT)
    \<and> PERCENTILE_TRACKING_LIMIT = 1000
    \<and> (\<forall>b s' g'. run_simulation_batch q b (s, g) = Some (s', g') \<longrightarrow>
          get_simulation_count s' = get_simulation_count s + max b 0
        \<and> (is_tracking_phase s' \<longleftrightarrow> get_simulation_count s' < PERCENTILE_TRACKING_LIMIT)
        \<and> (is_tracking_phase s \<and> \<not> is_tracking_phase s' \<longleftrightarrow>
             get_simulation_count s < PERCENTILE_TRACKING_LIMIT \<and>
             PERCENTILE_TRACKING_LIMIT \<le> get_simulation_count s')
        \<and> (\<not> is_tracking_phase s \<longrightarrow> \<not> is_tracking_phase s'))
    \<and> (\<forall>s' g'. batch_iteration q (s, g) = Some (s', g') \<longrightarrow>
          (is_tracking_phase s \<and> \<not> is_tracking_phase s' \<longleftrightarrow>
             get_simulation_count s = PERCENTILE_TRACKING_LIMIT - 1))"
proof -
  have p: "phase_inv s"
    using run_calls_phase [OF assms] initialize_simulation_phase by simp
  have b: "phase_inv s' \<and> simulation_count s' = simulation_count s + max b 0"
    if "run_simulation_batch q b (s, g) = Some (s', g')" for b s' g'
    using run_simulation_batch_phase [OF that] p by simp
  have i: "tracking_phase s \<and> \<not> tracking_phase s' \<longleftrightarrow>
             simulation_count s = PERCENTILE_TRACKING_LIMIT - 1"
    if "batch_iteration q (s, g) = Some (s', g')" for s' g'
    using batch_iteration_phase(2) [OF that p] .
  have 1: "is_tracking_phase s \<longleftrightarrow> get_simulation_count s < PERCENTILE_TRACKING_LIMIT"
    using p by (simp add: is_tracking_phase_def get_simulation_count_def phase_inv_def)
  have 2: "PERCENTILE_TRACKING_LIMIT = 1000"
    by (simp add: PERCENTILE_TRACKING_LIMIT_def)
  have 3: "get_simulation_count s' = get_simulation_count s + max b 0
        \<and> (is_tracking_phase s' \<longleftrightarrow> get_simulation_count s' < PERCENTILE_TRACKING_LIMIT)
        \<and> (is_tracking_phase s \<and> \<not> is_tracking_phase s' \<longleftrightarrow>
             get_simulation_count s < PERCENTILE_TRACKING_LIMIT \<and>
             PERCENTILE_TRACKING_LIMIT \<le> get_simulation_count s')
        \<and> (\<not> is_tracking_phase s \<longrightarrow> \<not> is_tracking_phase s')"
    if "run_simulation_batch q b (s, g) = Some (s', g')" for b s' g'
  proof -
    have "phase_inv s'" "simulation_count s' = simulation_count s + max b 0"
      using b [OF that] by simp_all
    then show ?thesis
      using p unfolding is_tracking_phase_def get_simulation_count_def phase_inv_def
      by linarith
  qed
  have 4: "is_tracking_phase s \<and> \<not> is_tracking_phase s' \<longleftrightarrow>
             get_simulation_count s = PERCENTILE_TRACKING_LIMIT - 1"
    if "batch_iteration q (s, g) = Some (s', g')" for s' g'
    using i [OF that] by (simp add: is_tracking_phase_def get_simulation_count_def)
  show ?thesis
    using 1 2 3 4 by blast
qed

theorem phase_transition_exact_witness:
  "\<exists>s g s' g' s'' g''.
     run_calls insertion_qsort [RunBatch 300, RunBatch 300, RunBatch 300]
       (initialize_simulation 100 (4/100) (5/100) (4/100) 2 (3/10) (- 7/10) 1 100 252 1 sim_state_zero) = Some (s, g)
     \<and> run_simulation_batch insertion_qsort 300 (s, g) = Some (s', g')
     \<and> batch_iteration insertion_qsort (s, g) = Some (s'', g'')
     \<and> get_simulation_count s = 900 \<and> is_tracking_phase s \<and> is_tracking_phase s''
     \<and> get_simulation_count s' = 1200 \<and> \<not> is_tracking_phase s'"
proof -
  let ?q = insertion_qsort
  let ?st0 = "initialize_simulation 100 (4/100) (5/100) (4/100) 2 (3/10) (- 7/10) 1 100 252 1 sim_state_zero"
  note c = insertion_qsort_contract
  have i0: "run_inv (fst ?st0)" "stored_inv (fst ?st0)" "simulation_count (fst ?st0) = 0"
    by (rule initialize_simulation_inv, rule initialize_simulation_stored,
        rule initialize_simulation_count)
  obtain st1 where 1: "run_simulation_batch ?q 300 ?st0 = Some st1" "run_inv (fst st1)"
      "stored_inv (fst st1)" "simulation_count (fst st1) = 300"
    using run_step [OF c i0(1,2), of 300] i0(3) by (auto simp: INT_MAX_def)
  obtain st2 where 2: "run_simulation_batch ?q 300 st1 = Some st2" "run_inv (fst st2)"
      "stored_inv (fst st2)" "simulation_count (fst st2) = 600"
    using run_step [OF c 1(2,3), of 300] 1(4) by (auto simp: INT_MAX_def)
  obtain st3 where 3: "run_simulation_batch ?q 300 st2 = Some st3" "run_inv (fst st3)"
      "stored_inv (fst st3)" "simulation_count (fst st3) = 900"
    using run_step [OF c 2(2,3), of 300] 2(4) by (auto simp: INT_MAX_def)
  obtain st4 where 4: "run_simulation_batch ?q 300 st3 = Some st4"
    using run_step [OF c 3(2,3), of 300] 3(4) by (auto simp: INT_MAX_def)
  obtain st5 where 5: "batch_iteration ?q st3 = Some st5"
    using batch_iteration_total [OF 3(2), of ?q "snd st3"] 3(4) by (auto simp: INT_MAX_def)
  have r: "run_calls ?q [RunBatch 300, RunBatch 300, RunBatch 300] ?st0 = Some (fst st3, snd st3)"
    using 1(1) 2(1) 3(1) by simp
  note t = phase_transition_exact [OF r]
  have n: "get_simulation_count (fst st3) = 900"
    using 3(4) by (simp add: get_simulation_count_def)
  have a: "is_tracking_phase (fst st3)"
    using t n by simp
  have r4: "run_simulation_batch ?q 300 (fst st3, snd st3) = Some (fst st4, snd st4)"
    using 4 by simp
  have r5: "batch_iteration ?q (fst st3, snd st3) = Some (fst st5, snd st5)"
    using 5 by simp
  note l = t [THEN conjunct2, THEN conjunct1]
  note tb = t [THEN conjunct2, THEN conjunct2, THEN conjunct1, rule_format, OF r4]
  note ti = t [THEN conjunct2, THEN conjunct2, THEN conjunct2, rule_format, OF r5]
  have b: "get_simulation_count (fst st4) = 1200" "\<not> is_tracking_phase (fst st4)"
    using tb n l by simp_all
  have d: "is_tracking_phase (fst st5)"
    using ti n a l by simp
  show ?thesis
    using r r4 r5 n a b d by blast
qed

subsection \<open>Batches of no iteration\<close>

lemma run_simulation_batch_nonpositive:
  "b \<le> 0 \<Longrightarrow>
     run_simulation_batch q b (s, g) =
       Some (s\<lparr>current_option_price :=
                 fp_times (exp (- sim_r s * sim_T s))
                   (fp_div_int (total_payoffs s) (simulation_count s))\<rparr>, g)"
  by (simp add: run_simulation_batch_def)

text \<open>
  C2: the code fails the claim. Right after \<open>initialize_simulation\<close> the option price is
  \<open>0\<close>; \<open>run_simulation_batch\<close> with batch size \<open>0\<close> or \<open>-1\<close> runs no iteration and then
  divides the payoff sum \<open>0.0\<close> by the count \<open>0\<close>: the option price becomes NaN.
\<close>

theorem zero_batch_after_initialize_gives_nan:
  "get_option_price (fst (initialize_simulation S0 v0 r theta kappa xi rho T K N now st)) = Finite 0
   \<and> map_option (\<lambda>st'. get_option_price (fst st'))
       (run_simulation_batch q 0 (initialize_simulation S0 v0 r theta kappa xi rho T K N now st)) = Some NaN
   \<and> map_option (\<lambda>st'. get_option_price (fst st'))
       (run_simulation_batch q (- 1) (initialize_simulation S0 v0 r theta kappa xi rho T K N now st)) = Some NaN"
  by (simp add: run_simulation_batch_def initialize_simulation_def get_option_price_def
      fp_div_int_def fp_times_def split_beta)

subsection \<open>Reseeding and the cached spare value\<close>






subsection \<open>The percentile indices\<close>

lemma percentile_indices_ordered:
  "0 < (M::int) \<Longrightarrow>
     0 \<le> M div 4 \<and> M div 4 \<le> M div 2 \<and> M div 2 \<le> 3 * M div 4 \<and> 3 * M div 4 \<le> M - 1"
  by linarith

lemma percentile_choice_bounds:
  assumes "0 < (M::int)" and "idx \<in> {0, M div 4, M div 2, 3 * M div 4, M - 1}"
  shows "0 \<le> idx \<and> idx < M"
proof -
  note o = percentile_indices_ordered [OF assms(1)]
  consider "idx = 0" | "idx = M div 4" | "idx = M div 2" | "idx = 3 * M div 4" | "idx = M - 1"
    using assms(2) by blast
  then show ?thesis
  proof cases
    case 1
    then show ?thesis using assms(1) by simp
  next
    case 2
    then show ?thesis using o by linarith
  next
    case 3
    then show ?thesis using o by linarith
  next
    case 4
    then show ?thesis using o by linarith
  next
    case 5
    then show ?thesis using assms(1) by simp
  qed
qed





subsection \<open>Percentile paths\<close>

lemma run_inv_lookup:
  assumes "run_inv s" and "0 \<le> idx" and "idx < paths_stored s"
  shows "idx < int (length (all_paths s))"
    and "\<exists>t. path (all_paths s ! nat idx) = Some t \<and> length t = sim_N s + 1 \<and>
              final_price (all_paths s ! nat idx) = t ! sim_N s"
proof -
  show l: "idx < int (length (all_paths s))"
    using assms by (simp add: run_inv_def)
  have "nat idx < length (take (nat (paths_stored s)) (all_paths s))"
    using assms(2,3) l by simp
  then have "take (nat (paths_stored s)) (all_paths s) ! nat idx
               \<in> set (take (nat (paths_stored s)) (all_paths s))"
    by (rule nth_mem)
  moreover have "take (nat (paths_stored s)) (all_paths s) ! nat idx = all_paths s ! nat idx"
    using assms(2,3) by simp
  ultimately have "all_paths s ! nat idx \<in> set (take (nat (paths_stored s)) (all_paths s))"
    by simp
  then show "\<exists>t. path (all_paths s ! nat idx) = Some t \<and> length t = sim_N s + 1 \<and>
              final_price (all_paths s ! nat idx) = t ! sim_N s"
    using assms(1) unfolding run_inv_def by blast
qed

lemma run_inv_indices:
  assumes "run_inv s" and "\<not> tracking_phase s" and "0 < paths_stored s"
  shows "min_idx s = 0" and "p25_idx s = paths_stored s div 4"
    and "p50_idx s = paths_stored s div 2" and "p75_idx s = 3 * paths_stored s div 4"
    and "max_idx s = paths_stored s - 1"
  using assms by (simp_all add: run_inv_def)

lemma get_percentile_path_at:
  assumes "run_inv s" and "\<not> tracking_phase s" and "0 < paths_stored s"
    and "percentile_index percentile s = Some idx" and "0 \<le> idx" and "idx < paths_stored s"
  shows "\<exists>t. get_percentile_path percentile s = Trajectory t \<and>
             path (all_paths s ! nat idx) = Some t \<and> length t = get_time_steps s + 1 \<and>
             final_price (all_paths s ! nat idx) = t ! get_time_steps s"
  using run_inv_lookup [OF assms(1,5,6)] assms(2-5)
  by (auto simp: get_percentile_path_def get_time_steps_def)

lemma percentile_index_unrecognised:
  "percentile \<notin> {0, 25, 50, 75, 100} \<Longrightarrow> percentile_index percentile s = None"
  by (simp add: percentile_index_def)

lemma percentile_index_recognised:
  assumes "percentile \<in> {0, 25, 50, 75, 100}"
  shows "percentile_index percentile s =
           Some (if percentile = 0 then min_idx s
                 else if percentile = 25 then p25_idx s
                 else if percentile = 50 then p50_idx s
                 else if percentile = 75 then p75_idx s
                 else max_idx s)"
  using assms by (auto simp: percentile_index_def)

lemma get_percentile_path_null:
  "tracking_phase s \<or> paths_stored s \<le> 0 \<or> percentile_index percentile s = None \<Longrightarrow>
     get_percentile_path percentile s = NULL"
  by (auto simp: get_percentile_path_def)

text \<open>
  C9. In every state that the program reaches from its start (with a \<open>qsort\<close> that
  keeps its contract): if the percentile is one of \<open>0, 25, 50, 75, 100\<close>, the run is not in
  the tracking phase and at least one path is stored, \<open>get_percentile_path\<close> returns the
  trajectory stored at the index \<open>0\<close>, \<open>floor(M/4)\<close>, \<open>floor(M/2)\<close>, \<open>floor(3M/4)\<close> or
  \<open>M - 1\<close> of the sorted cohort, a full trajectory of \<open>N + 1\<close> prices; if the run is in
  the tracking phase, or no path is stored, or the percentile is not one of the five, it
  returns the null pointer. The function assigns nothing, so it returns no state.
\<close>

theorem get_percentile_path_available:
  assumes "qsort_contract q" and "run_calls q cs sim_state_zero = Some (s, g)"
  shows "(percentile \<in> {0, 25, 50, 75, 100} \<and> \<not> is_tracking_phase s \<and> 0 < paths_stored s \<longrightarrow>
           (\<exists>idx t. idx = (if percentile = 0 then 0
                          else if percentile = 25 then paths_stored s div 4
                          else if percentile = 50 then paths_stored s div 2
                          else if percentile = 75 then 3 * paths_stored s div 4
                          else paths_stored s - 1)
               \<and> percentile_index percentile s = Some idx
               \<and> get_percentile_path percentile s = Trajectory t
               \<and> path (all_paths s ! nat idx) = Some t
               \<and> length t = get_time_steps s + 1
               \<and> final_price (all_paths s ! nat idx) = t ! get_time_steps s))
       \<and> (is_tracking_phase s \<or> paths_stored s \<le> 0 \<or> percentile \<notin> {0, 25, 50, 75, 100} \<longrightarrow>
            get_percentile_path percentile s = NULL)"
proof (rule conjI; rule impI)
  assume "is_tracking_phase s \<or> paths_stored s \<le> 0 \<or> percentile \<notin> {0, 25, 50, 75, 100}"
  then have "tracking_phase s \<or> paths_stored s \<le> 0 \<or> percentile_index percentile s = None"
    using percentile_index_unrecognised [of percentile s]
    unfolding is_tracking_phase_def by auto
  then show "get_percentile_path percentile s = NULL"
    by (rule get_percentile_path_null)
next
  assume a: "percentile \<in> {0, 25, 50, 75, 100} \<and> \<not> is_tracking_phase s \<and> 0 < paths_stored s"
  let ?M = "paths_stored s"
  let ?idx = "if percentile = 0 then 0
                          else if percentile = 25 then ?M div 4
                          else if percentile = 50 then ?M div 2
                          else if percentile = 75 then 3 * ?M div 4
                          else ?M - 1"
  have inv: "run_inv s"
    using run_calls_inv [OF assms(1) _ assms(2)] sim_state_zero_inv by simp
  have t: "\<not> tracking_phase s" "0 < ?M"
    using a by (simp_all add: is_tracking_phase_def)
  note i = run_inv_indices [OF inv t]
  have p: "percentile_index percentile s = Some ?idx"
    using percentile_index_recognised [of percentile s] a unfolding i by simp
  have "?idx \<in> {0, ?M div 4, ?M div 2, 3 * ?M div 4, ?M - 1}"
    by simp
  then have b: "0 \<le> ?idx" "?idx < ?M"
    by (simp_all only: percentile_choice_bounds [OF t(2)])
  show "\<exists>idx t. idx = ?idx
               \<and> percentile_index percentile s = Some idx
               \<and> get_percentile_path percentile s = Trajectory t
               \<and> path (all_paths s ! nat idx) = Some t
               \<and> length t = get_time_steps s + 1
               \<and> final_price (all_paths s ! nat idx) = t ! get_time_steps s"
    using get_percentile_path_at [OF inv t p b] p by auto
qed

theorem get_percentile_path_available_witness:
  "\<exists>s g t.
     run_calls insertion_qsort [Initialize 100 (4/100) (5/100) (4/100) 2 (3/10) (- 7/10) 1 100 252 1, RunBatch 1000] sim_state_zero = Some (s, g)
     \<and> qsort_contract insertion_qsort
     \<and> \<not> is_tracking_phase s \<and> paths_stored s = 1000
     \<and> percentile_index 50 s = Some 500
     \<and> get_percentile_path 50 s = Trajectory t
     \<and> path (all_paths s ! 500) = Some t
     \<and> length t = get_time_steps s + 1
     \<and> get_percentile_path 33 s = NULL"
proof -
  note c = insertion_qsort_contract
  from host_run_reaches_fast [OF c]
  obtain s g where r: "run_calls insertion_qsort [Initialize 100 (4/100) (5/100) (4/100) 2 (3/10) (- 7/10) 1 100 252 1, RunBatch 1000] sim_state_zero = Some (s, g)"
    and f: "\<not> tracking_phase s" "paths_stored s = 1000"
    by blast
  have h: "(50::int) \<in> {0, 25, 50, 75, 100} \<and> \<not> is_tracking_phase s \<and> 0 < paths_stored s"
    using f by (simp add: is_tracking_phase_def)
  have h2: "is_tracking_phase s \<or> paths_stored s \<le> 0 \<or> (33::int) \<notin> {0, 25, 50, 75, 100}"
    by simp
  from get_percentile_path_available [OF c r, of 50, THEN conjunct1, rule_format, OF h]
  obtain t where t: "percentile_index 50 s = Some 500" "get_percentile_path 50 s = Trajectory t"
      "path (all_paths s ! 500) = Some t" "length t = get_time_steps s + 1"
    unfolding f(2) by auto
  have n: "get_percentile_path 33 s = NULL"
    by (rule get_percentile_path_available [OF c r, of 33, THEN conjunct2, rule_format, OF h2])
  show ?thesis
    using r c h f(2) t n by blast
qed

text \<open>
  C10. In every state that the program reaches from its start, out of the tracking phase
  and with \<open>M > 0\<close> stored paths, the index that \<open>get_percentile_path\<close> looks up for a
  recognised percentile is one of \<open>0\<close>, \<open>floor(M/4)\<close>, \<open>floor(M/2)\<close>, \<open>floor(3M/4)\<close>,
  \<open>M - 1\<close>; each of these lies in \<open>[0, M)\<close>, \<open>M\<close> is at most the size of the allocated
  array, and the read is inside the stored paths.
\<close>

theorem percentile_index_in_bounds:
  assumes "qsort_contract q" and "run_calls q cs sim_state_zero = Some (s, g)"
    and "\<not> is_tracking_phase s" and "0 < paths_stored s"
    and "percentile_index percentile s = Some idx"
  shows "0 \<le> idx \<and> idx < paths_stored s
       \<and> paths_stored s \<le> int (length (all_paths s))
       \<and> idx \<in> {0, paths_stored s div 4, paths_stored s div 2, 3 * paths_stored s div 4,
                  paths_stored s - 1}
       \<and> 0 \<le> paths_stored s div 4 \<and> paths_stored s div 4 < paths_stored s
       \<and> 0 \<le> paths_stored s div 2 \<and> paths_stored s div 2 < paths_stored s
       \<and> 0 \<le> 3 * paths_stored s div 4 \<and> 3 * paths_stored s div 4 < paths_stored s
       \<and> 0 \<le> paths_stored s - 1 \<and> paths_stored s - 1 < paths_stored s
       \<and> get_percentile_path percentile s \<noteq> InvalidRead"
proof -
  let ?M = "paths_stored s"
  have inv: "run_inv s"
    using run_calls_inv [OF assms(1) _ assms(2)] sim_state_zero_inv by simp
  have t: "\<not> tracking_phase s" "0 < ?M"
    using assms(3,4) by (simp_all add: is_tracking_phase_def)
  note i = run_inv_indices [OF inv t]
  have m: "idx \<in> {0, ?M div 4, ?M div 2, 3 * ?M div 4, ?M - 1}"
    using assms(5) i by (auto simp: percentile_index_def split: if_splits)
  have all: "0 \<le> ?M div 4 \<and> ?M div 4 < ?M" "0 \<le> ?M div 2 \<and> ?M div 2 < ?M"
    "0 \<le> 3 * ?M div 4 \<and> 3 * ?M div 4 < ?M" "0 \<le> ?M - 1 \<and> ?M - 1 < ?M"
    by (rule percentile_choice_bounds [OF t(2)], simp)+
  have b: "0 \<le> idx" "idx < ?M"
    using percentile_choice_bounds [OF t(2) m] by simp_all
  have l: "?M \<le> int (length (all_paths s))"
    using inv by (simp add: run_inv_def)
  have "get_percentile_path percentile s \<noteq> InvalidRead"
    using get_percentile_path_at [OF inv t assms(5) b] by auto
  then show ?thesis
    using b l m all by (intro conjI) simp_all
qed

theorem percentile_index_in_bounds_witness:
  "\<exists>s g idx.
     run_calls insertion_qsort [Initialize 100 (4/100) (5/100) (4/100) 2 (3/10) (- 7/10) 1 100 252 1, RunBatch 1000] sim_state_zero = Some (s, g)
     \<and> qsort_contract insertion_qsort
     \<and> \<not> is_tracking_phase s \<and> 0 < paths_stored s
     \<and> percentile_index 75 s = Some idx
     \<and> 0 \<le> idx \<and> idx < paths_stored s
     \<and> get_percentile_path 75 s \<noteq> InvalidRead"
proof -
  note c = insertion_qsort_contract
  from host_run_reaches_fast [OF c]
  obtain s g where r: "run_calls insertion_qsort [Initialize 100 (4/100) (5/100) (4/100) 2 (3/10) (- 7/10) 1 100 252 1, RunBatch 1000] sim_state_zero = Some (s, g)"
    and f: "\<not> tracking_phase s" "paths_stored s = 1000"
    by blast
  have h: "\<not> is_tracking_phase s" "0 < paths_stored s"
    using f by (simp_all add: is_tracking_phase_def)
  have p: "percentile_index 75 s = Some (p75_idx s)"
    by (simp add: percentile_index_def)
  note t = percentile_index_in_bounds [OF c r h p]
  have "0 \<le> p75_idx s" "p75_idx s < paths_stored s" "get_percentile_path 75 s \<noteq> InvalidRead"
    using t by simp_all
  then show ?thesis
    using r c h p by blast
qed

end
